theory Spec2Isabelle
  imports Main "HOL-Library.Sublist"
begin

section \<open>Values thrown, and the two external libraries\<close>

text \<open>
  The backend is JavaScript. A \<^verbatim>\<open>throw\<close> is modelled as the left summand of a sum
  type, a \<^verbatim>\<open>try { .. } catch\<close> as a case distinction on it. Wall-clock time
  (\<^verbatim>\<open>Date.now()\<close>, \<^verbatim>\<open>new Date()\<close>) is an integer number of milliseconds and is
  an argument of every operation that reads the clock; the identifiers drawn by
  \<^verbatim>\<open>uuidv4()\<close> and the salt drawn by bcrypt are arguments as well.
\<close>

datatype exn =
    Error string
  | TypeError string
  | JsonWebTokenError string
  | TokenExpiredError string

text \<open>
  \<^verbatim>\<open>bcryptjs\<close> is not part of the repository. It is a parameter of the
  model: a pair of functions, \<^verbatim>\<open>bcrypt.hash\<close> (of the password, the cost and
  the salt it draws) and \<^verbatim>\<open>bcrypt.compare\<close>, of which nothing is assumed. A
  stored hash is a value of its own type; what it records is up to the library.
\<close>

datatype hashed = Bcrypt nat string string

record bcrypt =
  bcrypt_hash :: "string \<Rightarrow> nat \<Rightarrow> string \<Rightarrow> hashed"
  bcrypt_compare :: "string \<Rightarrow> hashed \<Rightarrow> bool"

definition SALT_ROUNDS :: nat where
  "SALT_ROUNDS = 12"

text \<open>
  A concrete instance for running the model, which follows the key handling of
  bcrypt: the key is the password followed by a NUL byte, read cyclically, and
  only its first 72 bytes enter the hash. A hash records the cost, the salt and
  those 72 bytes, and \<^verbatim>\<open>compare\<close> recomputes them. So passwords that agree
  on that key share their hashes: the empty password and the password that
  is one NUL character, for one.
\<close>

fun cyclic :: "nat \<Rightarrow> 'a list \<Rightarrow> 'a list \<Rightarrow> 'a list" where
  "cyclic 0 rest whole = []"
| "cyclic (Suc n) [] whole = (case whole of [] \<Rightarrow> [] | x # xs \<Rightarrow> x # cyclic n xs whole)"
| "cyclic (Suc n) (x # xs) whole = x # cyclic n xs whole"

definition bcrypt_key :: "string \<Rightarrow> string" where
  "bcrypt_key password = cyclic 72 (password @ [CHR 0x00]) (password @ [CHR 0x00])"

definition key_bcrypt :: bcrypt where
  "key_bcrypt = \<lparr>
     bcrypt_hash = (\<lambda>password rounds salt. Bcrypt rounds salt (bcrypt_key password)),
     bcrypt_compare = (\<lambda>password h.
       case h of Bcrypt rounds salt key \<Rightarrow> bcrypt_key password = key) \<rparr>"

text \<open>
  \<^verbatim>\<open>jsonwebtoken\<close> is not part of the repository either. The payload signed by
  \<^verbatim>\<open>login\<close> is a record; what \<^verbatim>\<open>jwt.verify\<close> hands back is that record,
  or some other value without an \<^verbatim>\<open>id\<close> property, or \<^verbatim>\<open>null\<close> (on which
  reading \<^verbatim>\<open>.id\<close> throws a TypeError). The library itself is a parameter of the
  model: a pair of functions, so that the theorems below hold for whatever the
  library does with a token string. \<^verbatim>\<open>jwt_verify\<close> takes the token, the secret
  and the library's clock in seconds.
\<close>

record payload =
  p_id :: string
  p_username :: string
  p_sessionId :: string
  p_iat :: int
  p_exp :: int

datatype decoded = Claims payload | NoId | Null

record jwt =
  jwt_sign :: "payload \<Rightarrow> string \<Rightarrow> string"
  jwt_verify :: "string \<Rightarrow> string \<Rightarrow> int \<Rightarrow> exn + decoded"

text \<open>
  A concrete instance for running the model: the signatures are listed in a
  table of (token string, key, payload). Signing looks the string up, verifying
  looks the payload up, checks the key and then the expiry
  (\<^verbatim>\<open>jsonwebtoken\<close> rejects once the clock has reached \<^verbatim>\<open>exp\<close>).
\<close>

definition table_jwt :: "(string \<times> string \<times> payload) list \<Rightarrow> jwt" where
  "table_jwt tbl = \<lparr>
     jwt_sign = (\<lambda>p k.
       case find (\<lambda>(t, k', p'). k' = k \<and> p' = p) tbl of
         Some (t, _, _) \<Rightarrow> t
       | None \<Rightarrow> []),
     jwt_verify = (\<lambda>t k clock.
       case find (\<lambda>(t', _, _). t' = t) tbl of
         None \<Rightarrow> Inl (JsonWebTokenError ''jwt malformed'')
       | Some (_, k', p) \<Rightarrow>
           if k' \<noteq> k then Inl (JsonWebTokenError ''invalid signature'')
           else if clock \<ge> p_exp p then Inl (TokenExpiredError ''jwt expired'')
           else Inr (Claims p)) \<rparr>"

definition SECRET :: string where
  "SECRET = ''supersecretkey-change-in-production''"

section \<open>auth.js: users, sessions, tokens\<close>

record user =
  u_id :: string
  u_username :: string
  u_password :: hashed
  u_createdAt :: int
  u_lastLogin :: "int option"
  u_isActive :: bool

text \<open>The user record without its password, as \<^verbatim>\<open>signup\<close> and \<^verbatim>\<open>login\<close> return it.\<close>

record user_info =
  i_id :: string
  i_username :: string
  i_createdAt :: int
  i_lastLogin :: "int option"
  i_isActive :: bool

record session =
  s_id :: string
  s_userId :: string
  s_username :: string
  s_createdAt :: int
  s_lastActivity :: int
  s_isActive :: bool

record auth_state =
  users :: "user list"
  sessions :: "string \<rightharpoonup> session"

definition init_state :: auth_state where
  "init_state = \<lparr>users = [], sessions = Map.empty\<rparr>"

text \<open>
  \<^verbatim>\<open>Array.prototype.findIndex\<close>: the index of the first element satisfying the
  predicate. \<^verbatim>\<open>find\<close> returns a reference to that element, so a field written
  through the reference is a write at that index of the array.
\<close>

fun findIndex :: "('a \<Rightarrow> bool) \<Rightarrow> 'a list \<Rightarrow> nat option" where
  "findIndex P [] = None"
| "findIndex P (x # xs) = (if P x then Some 0 else map_option Suc (findIndex P xs))"

definition findUser :: "user list \<Rightarrow> string \<Rightarrow> user option" where
  "findUser us username = find (\<lambda>u. u_username u = username) us"

definition findUserById :: "user list \<Rightarrow> string \<Rightarrow> user option" where
  "findUserById us ident = find (\<lambda>u. u_id u = ident) us"

definition userInfo :: "user \<Rightarrow> user_info" where
  "userInfo u = \<lparr>i_id = u_id u, i_username = u_username u, i_createdAt = u_createdAt u,
     i_lastLogin = u_lastLogin u, i_isActive = u_isActive u\<rparr>"

text \<open>An empty string is falsy, as a missing field is: \<^verbatim>\<open>!username || !password\<close>.\<close>

definition signup ::
  "bcrypt \<Rightarrow> auth_state \<Rightarrow> string \<Rightarrow> string \<Rightarrow> int \<Rightarrow> string \<Rightarrow> string
     \<Rightarrow> exn + (user_info \<times> auth_state)" where
  "signup B st username password now uuid salt =
     (if username = [] \<or> password = [] then Inl (Error ''Username and password are required'')
      else if findUser (users st) username \<noteq> None then Inl (Error ''Username already exists'')
      else
        let hashedPassword = bcrypt_hash B password SALT_ROUNDS salt;
            u = \<lparr>u_id = uuid, u_username = username, u_password = hashedPassword,
                 u_createdAt = now, u_lastLogin = None, u_isActive = True\<rparr>
        in Inr (userInfo u, st\<lparr>users := users st @ [u]\<rparr>))"

record login_result =
  r_token :: string
  r_user :: user_info
  r_sessionId :: string

text \<open>
  \<^verbatim>\<open>login\<close> writes \<^verbatim>\<open>lastLogin\<close> through the reference that
  \<^verbatim>\<open>findUser\<close> returned, that is at the index of the first user with the
  username. Nothing is written before the last \<^verbatim>\<open>throw\<close>.
\<close>

definition login ::
  "bcrypt \<Rightarrow> jwt \<Rightarrow> auth_state \<Rightarrow> string \<Rightarrow> string \<Rightarrow> int \<Rightarrow> string
     \<Rightarrow> exn + (login_result \<times> auth_state)" where
  "login B L st username password now uuid =
     (if username = [] \<or> password = [] then Inl (Error ''Username and password are required'')
      else case findIndex (\<lambda>u. u_username u = username) (users st) of
        None \<Rightarrow> Inl (Error ''Invalid username or password'')
      | Some i \<Rightarrow>
          let u = users st ! i in
          if \<not> bcrypt_compare B password (u_password u)
          then Inl (Error ''Invalid username or password'')
          else
            let u' = u\<lparr>u_lastLogin := Some now\<rparr>;
                sessionId = uuid;
                s = \<lparr>s_id = sessionId, s_userId = u_id u', s_username = u_username u',
                     s_createdAt = now, s_lastActivity = now, s_isActive = True\<rparr>;
                pl = \<lparr>p_id = u_id u', p_username = u_username u', p_sessionId = sessionId,
                      p_iat = now div 1000, p_exp = now div 1000 + 24 * 60 * 60\<rparr>;
                token = jwt_sign L pl SECRET
            in Inr (\<lparr>r_token = token, r_user = userInfo u', r_sessionId = sessionId\<rparr>,
                    st\<lparr>users := (users st)[i := u'], sessions := (sessions st)(sessionId \<mapsto> s)\<rparr>))"

text \<open>
  \<^verbatim>\<open>verifyTokenSync\<close>: first the body of the \<^verbatim>\<open>try\<close>, then the function with
  its \<^verbatim>\<open>catch (err) { return null; }\<close>. A value \<^verbatim>\<open>Inl e\<close> of the function would
  be an exception escaping to the caller.
\<close>

definition verifyTokenSync_try :: "jwt \<Rightarrow> user list \<Rightarrow> string \<Rightarrow> int \<Rightarrow> exn + decoded option" where
  "verifyTokenSync_try L us token now =
     (case jwt_verify L token SECRET (now div 1000) of
        Inl e \<Rightarrow> Inl e
      | Inr Null \<Rightarrow> Inl (TypeError ''Cannot read properties of null'')
      | Inr NoId \<Rightarrow> Inr None
      | Inr (Claims p) \<Rightarrow>
          (case findUserById us (p_id p) of
             None \<Rightarrow> Inr None
           | Some u \<Rightarrow> if \<not> u_isActive u then Inr None else Inr (Some (Claims p))))"

definition verifyTokenSync :: "jwt \<Rightarrow> user list \<Rightarrow> string \<Rightarrow> int \<Rightarrow> exn + decoded option" where
  "verifyTokenSync L us token now =
     (case verifyTokenSync_try L us token now of
        Inl err \<Rightarrow> Inr None
      | Inr r \<Rightarrow> Inr r)"

definition getActiveSession :: "auth_state \<Rightarrow> string \<Rightarrow> session option" where
  "getActiveSession st sessionId = sessions st sessionId"

definition updateSessionActivity :: "auth_state \<Rightarrow> string \<Rightarrow> int \<Rightarrow> auth_state" where
  "updateSessionActivity st sessionId now =
     (case sessions st sessionId of
        None \<Rightarrow> st
      | Some s \<Rightarrow> st\<lparr>sessions := (sessions st)(sessionId \<mapsto> s\<lparr>s_lastActivity := now\<rparr>)\<rparr>)"

text \<open>\<^verbatim>\<open>Map.prototype.delete\<close> returns whether the key was present.\<close>

definition logout :: "auth_state \<Rightarrow> string \<Rightarrow> bool \<times> auth_state" where
  "logout st sessionId =
     (sessions st sessionId \<noteq> None, st\<lparr>sessions := (sessions st)(sessionId := None)\<rparr>)"

definition cleanupSessions :: "auth_state \<Rightarrow> int \<Rightarrow> auth_state" where
  "cleanupSessions st now =
     (let expiredTime = 24 * 60 * 60 * 1000 in
      st\<lparr>sessions := (\<lambda>sessionId.
            case sessions st sessionId of
              None \<Rightarrow> None
            | Some s \<Rightarrow> if now - s_lastActivity s > expiredTime then None else Some s)\<rparr>)"

section \<open>The protected-route middleware\<close>

text \<open>\<^verbatim>\<open>String.prototype.split\<close> with a one-character separator.\<close>

fun split :: "char \<Rightarrow> string \<Rightarrow> string list" where
  "split c [] = [[]]"
| "split c (x # xs) =
     (if x = c then [] # split c xs
      else (case split c xs of
              w # ws \<Rightarrow> (x # w) # ws
            | [] \<Rightarrow> [[x]]))"

record headers =
  authorization :: "string option"
  x_session_id :: "string option"

text \<open>
  What \<^verbatim>\<open>requireAuth\<close> does with the request: one of the three error responses,
  or \<^verbatim>\<open>req.user = payload; next()\<close>.
\<close>

datatype response =
    Status401 string
  | Status403 string
  | Status500 string
  | Next decoded

text \<open>
  The token of a request: \<^verbatim>\<open>authHeader && authHeader.split(' ')[1]\<close>, and
  \<open>None\<close> where that is falsy (no header, an empty one, no second piece or an
  empty one), which is when \<^verbatim>\<open>!token\<close> holds. The session header is tested
  for truthiness in the same way.
\<close>

definition bearer :: "headers \<Rightarrow> string option" where
  "bearer h =
     (case authorization h of
        None \<Rightarrow> None
      | Some authHeader \<Rightarrow>
          if authHeader = [] then None
          else let parts = split CHR '' '' authHeader in
               if 1 < length parts \<and> parts ! 1 \<noteq> [] then Some (parts ! 1) else None)"

definition requireAuth :: "jwt \<Rightarrow> auth_state \<Rightarrow> headers \<Rightarrow> int \<Rightarrow> response \<times> auth_state" where
  "requireAuth L st h now =
     (case bearer h of
        None \<Rightarrow> (Status401 ''Access token required'', st)
      | Some token \<Rightarrow>
          (case verifyTokenSync L (users st) token now of
             Inl error \<Rightarrow> (Status500 ''Authentication error'', st)
           | Inr None \<Rightarrow> (Status403 ''Invalid or expired token'', st)
           | Inr (Some pl) \<Rightarrow>
               (case x_session_id h of
                  None \<Rightarrow> (Next pl, st)
                | Some sessionId \<Rightarrow>
                    if sessionId = [] then (Next pl, st)
                    else (Next pl, updateSessionActivity st sessionId now))))"

section \<open>The rate-limiting middleware\<close>

record rate_window =
  count :: nat
  resetTime :: int

datatype admission = Admitted | TooManyRequests int

text \<open>
  \<^verbatim>\<open>Math.ceil(x / 1000)\<close> on an integer number of milliseconds \<open>x\<close>.
\<close>

definition ceil_div :: "int \<Rightarrow> int \<Rightarrow> int" where
  "ceil_div x d = - ((- x) div d)"

text \<open>
  \<^verbatim>\<open>rateLimit(maxRequests, windowMs)\<close> returns the middleware; the model is the
  middleware applied to the map \<^verbatim>\<open>rateLimitMap\<close>, the client identifier of the
  request and the time of the request. \<^verbatim>\<open>Admitted\<close> stands for \<^verbatim>\<open>next()\<close>,
  \<^verbatim>\<open>TooManyRequests r\<close> for the 429 response with \<^verbatim>\<open>retryAfter: r\<close>.
\<close>

definition rateLimit ::
  "nat \<Rightarrow> int \<Rightarrow> (string \<rightharpoonup> rate_window) \<Rightarrow> string \<Rightarrow> int
     \<Rightarrow> admission \<times> (string \<rightharpoonup> rate_window)" where
  "rateLimit maxRequests windowMs rateLimitMap clientId now =
     (case rateLimitMap clientId of
        None \<Rightarrow> (Admitted, rateLimitMap(clientId \<mapsto> \<lparr>count = 1, resetTime = now + windowMs\<rparr>))
      | Some clientData \<Rightarrow>
          if now > resetTime clientData
          then (Admitted,
                rateLimitMap(clientId \<mapsto> clientData\<lparr>count := 1, resetTime := now + windowMs\<rparr>))
          else if count clientData \<ge> maxRequests
          then (TooManyRequests (ceil_div (resetTime clientData - now) 1000), rateLimitMap)
          else (Admitted, rateLimitMap(clientId \<mapsto> clientData\<lparr>count := count clientData + 1\<rparr>)))"


section \<open>notes.js: the in-memory note store\<close>

text \<open>
  \<^verbatim>\<open>createNote\<close> stores \<^verbatim>\<open>title\<close> and \<^verbatim>\<open>content\<close> as it receives them, so a
  stored note may lack either (\<^verbatim>\<open>undefined\<close>, here \<open>None\<close>). The other
  destructured fields have defaults. Timestamps are milliseconds.
\<close>

record Note =
  n_id :: string
  n_owner :: string
  n_title :: "string option"
  n_content :: "string option"
  n_isPublic :: bool
  n_tags :: "string list"
  n_category :: string
  n_views :: nat
  n_createdAt :: int
  n_updatedAt :: int
  n_isDeleted :: bool
  n_deletedAt :: "int option"

text \<open>The object destructured by \<^verbatim>\<open>createNote\<close>; \<open>None\<close> is a field not supplied.\<close>

record note_input =
  in_title :: "string option"
  in_content :: "string option"
  in_isPublic :: "bool option"
  in_tags :: "string list option"
  in_category :: "string option"

definition or_default :: "'a \<Rightarrow> 'a option \<Rightarrow> 'a" where
  "or_default d v = (case v of None \<Rightarrow> d | Some x \<Rightarrow> x)"

text \<open>
  The body of \<^verbatim>\<open>createNote\<close> has no statement that throws, and no check of its
  arguments: the result is always \<open>Inr\<close>.
\<close>

definition createNote ::
  "Note list \<Rightarrow> string \<Rightarrow> note_input \<Rightarrow> string \<Rightarrow> int \<Rightarrow> exn + (Note \<times> Note list)" where
  "createNote notes userId inp uuid now =
     (let n = \<lparr>n_id = uuid, n_owner = userId, n_title = in_title inp, n_content = in_content inp,
                n_isPublic = or_default False (in_isPublic inp), n_tags = or_default [] (in_tags inp),
                n_category = or_default ''General'' (in_category inp), n_views = 0,
                n_createdAt = now, n_updatedAt = now, n_isDeleted = False, n_deletedAt = None\<rparr>
      in Inr (n, notes @ [n]))"

text \<open>
  \<^verbatim>\<open>toLowerCase\<close> on the ASCII letters (the characters of the model are bytes),
  and \<^verbatim>\<open>includes\<close>: the argument occurs as a contiguous piece.
\<close>

definition lower_char :: "char \<Rightarrow> char" where
  "lower_char c =
     (let k = (of_char c :: nat) in if 65 \<le> k \<and> k \<le> 90 then char_of (k + 32) else c)"

definition toLowerCase :: "string \<Rightarrow> string" where
  "toLowerCase s = map lower_char s"

definition js_includes :: "string \<Rightarrow> string \<Rightarrow> bool" where
  "js_includes s piece = sublist piece s"

text \<open>
  The search predicate of \<^verbatim>\<open>listNotes\<close>, evaluated left to right:
  \<^verbatim>\<open>note.title.toLowerCase()\<close> throws a TypeError on a note without a title, and
  \<^verbatim>\<open>note.content.toLowerCase()\<close> on one without content if the title did not
  match already. \<^verbatim>\<open>note.tags\<close> is guarded, and is always an array here.
\<close>

definition search_matches :: "string \<Rightarrow> Note \<Rightarrow> exn + bool" where
  "search_matches searchLower n =
     (case n_title n of
        None \<Rightarrow> Inl (TypeError ''Cannot read properties of undefined'')
      | Some title \<Rightarrow>
          if js_includes (toLowerCase title) searchLower then Inr True
          else (case n_content n of
                  None \<Rightarrow> Inl (TypeError ''Cannot read properties of undefined'')
                | Some content \<Rightarrow>
                    if js_includes (toLowerCase content) searchLower then Inr True
                    else Inr (list_ex (\<lambda>tag. js_includes (toLowerCase tag) searchLower)
                               (n_tags n))))"

text \<open>\<^verbatim>\<open>Array.prototype.filter\<close> with a callback that may throw: the first throw ends it.\<close>

fun filter_throwing :: "('a \<Rightarrow> exn + bool) \<Rightarrow> 'a list \<Rightarrow> exn + 'a list" where
  "filter_throwing P [] = Inr []"
| "filter_throwing P (x # xs) =
     (case P x of
        Inl e \<Rightarrow> Inl e
      | Inr b \<Rightarrow>
          (case filter_throwing P xs of
             Inl e \<Rightarrow> Inl e
           | Inr ys \<Rightarrow> Inr (if b then x # ys else ys)))"

record list_options =
  search :: "string option"
  filter_opt :: "string option"

definition apply_filter :: "string option \<Rightarrow> int \<Rightarrow> Note list \<Rightarrow> Note list" where
  "apply_filter f now userNotes =
     (case f of
        None \<Rightarrow> userNotes
      | Some v \<Rightarrow>
          if v = ''public'' then filter n_isPublic userNotes
          else if v = ''private'' then filter (\<lambda>n. \<not> n_isPublic n) userNotes
          else if v = ''recent'' then
            (let weekAgo = now - 7 * 24 * 60 * 60 * 1000
             in filter (\<lambda>n. n_updatedAt n > weekAgo) userNotes)
          else userNotes)"

text \<open>
  \<^verbatim>\<open>userNotes.sort((a, b) => b.updatedAt - a.updatedAt)\<close> is a stable sort, most
  recent first: \<open>sort_key\<close> on the negated timestamp. The \<^verbatim>\<open>catch\<close> turns
  whatever was thrown into \<^verbatim>\<open>Error('Failed to fetch notes')\<close>.
\<close>

definition listNotes_try :: "Note list \<Rightarrow> string \<Rightarrow> list_options \<Rightarrow> int \<Rightarrow> exn + Note list" where
  "listNotes_try notes userId options now =
     (let userNotes = filter (\<lambda>n. n_owner n = userId \<and> \<not> n_isDeleted n) notes;
          searched =
            (case search options of
               None \<Rightarrow> Inr userNotes
             | Some s \<Rightarrow>
                 if s = [] then Inr userNotes
                 else filter_throwing (search_matches (toLowerCase s)) userNotes)
      in case searched of
           Inl e \<Rightarrow> Inl e
         | Inr found \<Rightarrow>
             Inr (sort_key (\<lambda>n. - n_updatedAt n) (apply_filter (filter_opt options) now found)))"

definition listNotes :: "Note list \<Rightarrow> string \<Rightarrow> list_options \<Rightarrow> int \<Rightarrow> exn + Note list" where
  "listNotes notes userId options now =
     (case listNotes_try notes userId options now of
        Inl error \<Rightarrow> Inl (Error ''Failed to fetch notes'')
      | Inr userNotes \<Rightarrow> Inr userNotes)"

text \<open>
  \<^verbatim>\<open>getNote\<close>, \<^verbatim>\<open>updateNote\<close> and \<^verbatim>\<open>deleteNote\<close> look the note up with a
  predicate that reads three fields and then write fields of the note found;
  nothing in their bodies throws, so their \<^verbatim>\<open>catch\<close> blocks are not part of
  the model. Each returns its result and the store after the call.
\<close>

definition visible :: "string \<Rightarrow> string \<Rightarrow> Note \<Rightarrow> bool" where
  "visible userId noteId n \<longleftrightarrow> n_id n = noteId \<and> n_owner n = userId \<and> \<not> n_isDeleted n"

definition getNote :: "Note list \<Rightarrow> string \<Rightarrow> string \<Rightarrow> Note option \<times> Note list" where
  "getNote notes userId noteId =
     (case findIndex (visible userId noteId) notes of
        None \<Rightarrow> (None, notes)
      | Some i \<Rightarrow>
          let n = (notes ! i)\<lparr>n_views := n_views (notes ! i) + 1\<rparr>
          in (Some n, notes[i := n]))"

text \<open>
  The request body handed to \<^verbatim>\<open>updateNote\<close>: a field is \<open>None\<close> when the body
  does not have it (\<^verbatim>\<open>updateData[field] === undefined\<close>). The body is arbitrary
  JSON, so it may carry the other fields of a note too.
\<close>

record patch =
  pt_title :: "string option"
  pt_content :: "string option"
  pt_isPublic :: "bool option"
  pt_tags :: "string list option"
  pt_category :: "string option"
  pt_id :: "string option"
  pt_owner :: "string option"
  pt_views :: "nat option"
  pt_createdAt :: "int option"
  pt_updatedAt :: "int option"
  pt_isDeleted :: "bool option"
  pt_deletedAt :: "int option"

definition updateNote ::
  "Note list \<Rightarrow> string \<Rightarrow> string \<Rightarrow> patch \<Rightarrow> int \<Rightarrow> Note option \<times> Note list" where
  "updateNote notes userId noteId updateData now =
     (case findIndex (visible userId noteId) notes of
        None \<Rightarrow> (None, notes)
      | Some noteIndex \<Rightarrow>
          let n0 = notes ! noteIndex;
              n1 = (case pt_title updateData of None \<Rightarrow> n0 | Some v \<Rightarrow> n0\<lparr>n_title := Some v\<rparr>);
              n2 = (case pt_content updateData of None \<Rightarrow> n1 | Some v \<Rightarrow> n1\<lparr>n_content := Some v\<rparr>);
              n3 = (case pt_isPublic updateData of None \<Rightarrow> n2 | Some v \<Rightarrow> n2\<lparr>n_isPublic := v\<rparr>);
              n4 = (case pt_tags updateData of None \<Rightarrow> n3 | Some v \<Rightarrow> n3\<lparr>n_tags := v\<rparr>);
              n5 = (case pt_category updateData of None \<Rightarrow> n4 | Some v \<Rightarrow> n4\<lparr>n_category := v\<rparr>);
              n6 = n5\<lparr>n_updatedAt := now\<rparr>
          in (Some n6, notes[noteIndex := n6]))"

definition deleteNote :: "Note list \<Rightarrow> string \<Rightarrow> string \<Rightarrow> int \<Rightarrow> bool \<times> Note list" where
  "deleteNote notes userId noteId now =
     (case findIndex (visible userId noteId) notes of
        None \<Rightarrow> (False, notes)
      | Some noteIndex \<Rightarrow>
          (True, notes[noteIndex := (notes ! noteIndex)\<lparr>n_isDeleted := True, n_deletedAt := Some now\<rparr>]))"

section \<open>Reachable states of the user and session tables\<close>

text \<open>
  The tables \<^verbatim>\<open>users\<close> and \<^verbatim>\<open>sessions\<close> start empty and are written only by
  the functions of auth.js; \<^verbatim>\<open>users\<close> is not exported. These are the states
  the tables can be in, with the bcrypt library \<open>B\<close>. \<open>users_ok\<close> is what
  holds of every user in them: the flag set by \<^verbatim>\<open>signup\<close> is never cleared,
  and \<^verbatim>\<open>signup\<close> stores a user only with a username that is not empty.
\<close>

inductive reachable :: "bcrypt \<Rightarrow> auth_state \<Rightarrow> bool" for B :: bcrypt where
  start: "reachable B init_state"
| after_signup:
    "reachable B st \<Longrightarrow> signup B st username password now uuid salt = Inr (info, st') \<Longrightarrow>
       reachable B st'"
| after_login:
    "reachable B st \<Longrightarrow> login B L st username password now uuid = Inr (res, st') \<Longrightarrow>
       reachable B st'"
| after_logout: "reachable B st \<Longrightarrow> reachable B (snd (logout st sessionId))"
| after_activity: "reachable B st \<Longrightarrow> reachable B (updateSessionActivity st sessionId now)"
| after_cleanup: "reachable B st \<Longrightarrow> reachable B (cleanupSessions st now)"

definition users_ok :: "user list \<Rightarrow> bool" where
  "users_ok us \<longleftrightarrow> list_all (\<lambda>u. u_isActive u \<and> u_username u \<noteq> []) us"

section \<open>Predicates of the specification\<close>

text \<open>
  The note with this identifier is absent, owned by a different user, or
  soft-deleted: every note of the store with the identifier is foreign or deleted.
\<close>

definition hidden :: "string \<Rightarrow> string \<Rightarrow> Note list \<Rightarrow> bool" where
  "hidden userId noteId notes \<longleftrightarrow>
     (\<forall>n\<in>set notes. n_id n = noteId \<longrightarrow> n_owner n \<noteq> userId \<or> n_isDeleted n)"

text \<open>The search and the filter as the specification words them.\<close>

definition search_ok :: "string option \<Rightarrow> Note \<Rightarrow> bool" where
  "search_ok s n \<longleftrightarrow>
     (case s of
        None \<Rightarrow> True
      | Some term \<Rightarrow>
          term = [] \<or>
          (\<exists>title. n_title n = Some title \<and> js_includes (toLowerCase title) (toLowerCase term)) \<or>
          (\<exists>content. n_content n = Some content \<and>
             js_includes (toLowerCase content) (toLowerCase term)) \<or>
          (\<exists>tag\<in>set (n_tags n). js_includes (toLowerCase tag) (toLowerCase term)))"

definition filter_ok :: "string option \<Rightarrow> int \<Rightarrow> Note \<Rightarrow> bool" where
  "filter_ok f now n \<longleftrightarrow>
     (f = Some ''public'' \<longrightarrow> n_isPublic n) \<and>
     (f = Some ''private'' \<longrightarrow> \<not> n_isPublic n) \<and>
     (f = Some ''recent'' \<longrightarrow> now - 7 * 24 * 60 * 60 * 1000 < n_updatedAt n)"

text \<open>Every note that the user owns and has not deleted has a title and a content.\<close>

definition complete :: "string \<Rightarrow> Note list \<Rightarrow> bool" where
  "complete userId notes \<longleftrightarrow>
     (\<forall>n\<in>set notes. n_owner n = userId \<and> \<not> n_isDeleted n \<longrightarrow>
        n_title n \<noteq> None \<and> n_content n \<noteq> None)"

section \<open>Running examples\<close>

text \<open>
  The scenario of the specification: alice signs up and logs in, which gives
  her the session \<^verbatim>\<open>s1\<close> and the token \<^verbatim>\<open>T1\<close>, and then logs out. The
  JWT library of the scenario signs the one payload of that login.
\<close>

definition alice :: user where
  "alice = \<lparr>u_id = ''u1'', u_username = ''alice'',
     u_password = bcrypt_hash key_bcrypt ''pw1'' SALT_ROUNDS ''salt1'',
     u_createdAt = 1000, u_lastLogin = None, u_isActive = True\<rparr>"

definition alice_claims :: payload where
  "alice_claims = \<lparr>p_id = ''u1'', p_username = ''alice'', p_sessionId = ''s1'',
     p_iat = 2, p_exp = 86402\<rparr>"

definition alice_session :: session where
  "alice_session = \<lparr>s_id = ''s1'', s_userId = ''u1'', s_username = ''alice'',
     s_createdAt = 2000, s_lastActivity = 2000, s_isActive = True\<rparr>"

definition demo_jwt :: jwt where
  "demo_jwt = table_jwt [(''T1'', SECRET, alice_claims)]"

definition st_signed_up :: auth_state where
  "st_signed_up = \<lparr>users = [alice], sessions = Map.empty\<rparr>"

definition st_logged_in :: auth_state where
  "st_logged_in = \<lparr>users = [alice\<lparr>u_lastLogin := Some 2000\<rparr>],
     sessions = [''s1'' \<mapsto> alice_session]\<rparr>"

definition st_logged_out :: auth_state where
  "st_logged_out = \<lparr>users = [alice\<lparr>u_lastLogin := Some 2000\<rparr>], sessions = Map.empty\<rparr>"

text \<open>dave signs up with the password that is one NUL character.\<close>

definition dave :: user where
  "dave = \<lparr>u_id = ''u2'', u_username = ''dave'',
     u_password = bcrypt_hash key_bcrypt [CHR 0x00] SALT_ROUNDS ''salt2'',
     u_createdAt = 1500, u_lastLogin = None, u_isActive = True\<rparr>"

definition st_dave :: auth_state where
  "st_dave = \<lparr>users = [dave], sessions = Map.empty\<rparr>"

definition bearer_T1 :: headers where
  "bearer_T1 = \<lparr>authorization = Some ''Bearer T1'', x_session_id = Some ''s1''\<rparr>"

text \<open>Notes of user \<^verbatim>\<open>u1\<close>, the requests that create them, and a request body for an update.\<close>

definition input_A :: note_input where
  "input_A = \<lparr>in_title = Some ''A'', in_content = Some ''B'', in_isPublic = None,
     in_tags = None, in_category = None\<rparr>"

definition note_A :: Note where
  "note_A = \<lparr>n_id = ''n1'', n_owner = ''u1'', n_title = Some ''A'', n_content = Some ''B'',
     n_isPublic = False, n_tags = [], n_category = ''General'', n_views = 0,
     n_createdAt = 5000, n_updatedAt = 5000, n_isDeleted = False, n_deletedAt = None\<rparr>"

definition untitled_input :: note_input where
  "untitled_input = \<lparr>in_title = None, in_content = Some ''abc'', in_isPublic = None,
     in_tags = None, in_category = None\<rparr>"

definition untitled_note :: Note where
  "untitled_note = \<lparr>n_id = ''n2'', n_owner = ''u1'', n_title = None, n_content = Some ''abc'',
     n_isPublic = False, n_tags = [], n_category = ''General'', n_views = 0,
     n_createdAt = 6000, n_updatedAt = 6000, n_isDeleted = False, n_deletedAt = None\<rparr>"

definition deleted_A :: Note where
  "deleted_A = note_A\<lparr>n_isDeleted := True, n_deletedAt := Some 8000\<rparr>"

definition empty_title_input :: note_input where
  "empty_title_input = \<lparr>in_title = Some [], in_content = Some ''B'', in_isPublic = None,
     in_tags = None, in_category = None\<rparr>"

definition empty_title_note :: Note where
  "empty_title_note = \<lparr>n_id = ''n3'', n_owner = ''u1'', n_title = Some [], n_content = Some ''B'',
     n_isPublic = False, n_tags = [], n_category = ''General'', n_views = 0,
     n_createdAt = 5500, n_updatedAt = 5500, n_isDeleted = False, n_deletedAt = None\<rparr>"

definition long_title_input :: note_input where
  "long_title_input = \<lparr>in_title = Some (replicate 201 CHR ''x''), in_content = Some ''B'',
     in_isPublic = None, in_tags = None, in_category = None\<rparr>"

definition long_title_note :: Note where
  "long_title_note = \<lparr>n_id = ''n4'', n_owner = ''u1'', n_title = Some (replicate 201 CHR ''x''),
     n_content = Some ''B'', n_isPublic = False, n_tags = [], n_category = ''General'',
     n_views = 0, n_createdAt = 5600, n_updatedAt = 5600, n_isDeleted = False,
     n_deletedAt = None\<rparr>"

definition patch_title :: patch where
  "patch_title = \<lparr>pt_title = Some ''A2'', pt_content = None, pt_isPublic = None, pt_tags = None,
     pt_category = None, pt_id = Some ''zz'', pt_owner = Some ''u2'', pt_views = Some 99,
     pt_createdAt = Some 1, pt_updatedAt = Some 2, pt_isDeleted = Some True, pt_deletedAt = Some 3\<rparr>"

definition updated_A :: Note where
  "updated_A = note_A\<lparr>n_title := Some ''A2'', n_updatedAt := 8000\<rparr>"

section \<open>Array lookups\<close>

lemma findIndex_None: "findIndex P xs = None \<longleftrightarrow> (\<forall>x\<in>set xs. \<not> P x)"
  by (induction xs) auto

lemma findIndex_Some:
  "findIndex P xs = Some i \<Longrightarrow> i < length xs \<and> P (xs ! i) \<and> (\<forall>j<i. \<not> P (xs ! j))"
proof (induction xs arbitrary: i)
  case Nil
  then show ?case by simp
next
  case (Cons x xs)
  show ?case
  proof (cases "P x")
    case True
    with Cons.prems show ?thesis by simp
  next
    case False
    with Cons.prems obtain k where k: "findIndex P xs = Some k" "i = Suc k"
      by auto
    from Cons.IH [OF k(1)] False k(2) show ?thesis
      by (auto simp: less_Suc_eq_0_disj)
  qed
qed

lemma find_findIndex: "find P xs = map_option (\<lambda>i. xs ! i) (findIndex P xs)"
  by (induction xs) (auto simp: option.map_comp comp_def)

lemma find_update_first:
  "findIndex P xs = Some i \<Longrightarrow> P y \<Longrightarrow> find P (xs[i := y]) = Some y"
proof (induction xs arbitrary: i)
  case Nil
  then show ?case by simp
next
  case (Cons x xs)
  then show ?case
    by (cases "P x") auto
qed

section \<open>The scenario, step by step\<close>

lemma cyclic_72: "cyclic 72 (x # xs) whole = x # cyclic 71 xs whole"
proof -
  have "cyclic (Suc 71) (x # xs) whole = x # cyclic 71 xs whole"
    by (rule cyclic.simps)
  then show ?thesis by simp
qed

lemma bcrypt_key_Nil: "bcrypt_key [] = CHR 0x00 # cyclic 71 [] [CHR 0x00]"
  by (simp add: bcrypt_key_def cyclic_72)

lemma bcrypt_key_Cons:
  "bcrypt_key (c # cs) = c # cyclic 71 (cs @ [CHR 0x00]) ((c # cs) @ [CHR 0x00])"
  by (simp add: bcrypt_key_def cyclic_72)

lemma cyclic_replicate:
  "set rest \<subseteq> {x} \<Longrightarrow> set whole \<subseteq> {x} \<Longrightarrow> whole \<noteq> [] \<Longrightarrow> cyclic n rest whole = replicate n x"
proof (induction n arbitrary: rest)
  case 0
  show ?case by simp
next
  case (Suc n)
  show ?case
  proof (cases rest)
    case Nil
    from Suc.prems obtain y ys where w: "whole = y # ys"
      by (cases whole) auto
    with Suc.prems have "y = x" "set ys \<subseteq> {x}"
      by auto
    with Suc.IH [of ys] Suc.prems Nil w show ?thesis
      by simp
  next
    case (Cons y ys)
    with Suc.prems have "y = x" "set ys \<subseteq> {x}"
      by auto
    with Suc.IH [of ys] Suc.prems Cons show ?thesis
      by simp
  qed
qed

lemma bcrypt_key_NUL: "bcrypt_key [CHR 0x00] = bcrypt_key []"
  by (simp add: bcrypt_key_def cyclic_replicate [where x = "CHR 0x00"])

lemma signup_alice:
  "signup key_bcrypt init_state ''alice'' ''pw1'' 1000 ''u1'' ''salt1'' =
     Inr (userInfo alice, st_signed_up)"
  by (simp add: signup_def init_state_def findUser_def alice_def st_signed_up_def userInfo_def)

lemma signup_dave:
  "signup key_bcrypt init_state ''dave'' [CHR 0x00] 1500 ''u2'' ''salt2'' =
     Inr (userInfo dave, st_dave)"
  by (simp add: signup_def init_state_def findUser_def dave_def st_dave_def userInfo_def)

lemma login_alice:
  "login key_bcrypt demo_jwt st_signed_up ''alice'' ''pw1'' 2000 ''s1'' =
     Inr (\<lparr>r_token = ''T1'', r_user = userInfo (alice\<lparr>u_lastLogin := Some 2000\<rparr>),
           r_sessionId = ''s1''\<rparr>, st_logged_in)"
  by (simp add: login_def Let_def st_signed_up_def st_logged_in_def alice_def alice_session_def
      demo_jwt_def table_jwt_def alice_claims_def userInfo_def key_bcrypt_def)

lemma createNote_A: "createNote [] ''u1'' input_A ''n1'' 5000 = Inr (note_A, [note_A])"
  by (simp add: createNote_def or_default_def Let_def input_A_def note_A_def)

lemma logout_alice: "logout st_logged_in ''s1'' = (True, st_logged_out)"
  by (simp add: logout_def st_logged_in_def st_logged_out_def)

lemma requireAuth_after_logout:
  "requireAuth demo_jwt st_logged_out bearer_T1 3000 = (Next (Claims alice_claims), st_logged_out)"
  by (simp add: requireAuth_def bearer_def bearer_T1_def
      verifyTokenSync_def verifyTokenSync_try_def demo_jwt_def table_jwt_def alice_claims_def
      st_logged_out_def findUserById_def alice_def updateSessionActivity_def)

section \<open>Users of a reachable state\<close>

lemma users_ok_update:
  "users_ok us \<Longrightarrow> i < length us \<Longrightarrow> users_ok (us[i := (us ! i)\<lparr>u_lastLogin := t\<rparr>])"
  unfolding users_ok_def list_all_iff
  by (auto dest!: subsetD [OF set_update_subset_insert])

lemma reachable_users_ok: "reachable B st \<Longrightarrow> users_ok (users st)"
proof (induction rule: reachable.induct)
  case start
  show ?case by (simp add: init_state_def users_ok_def)
next
  case (after_signup st username password now uuid salt info st')
  then show ?case
    by (auto simp: signup_def users_ok_def Let_def split: if_splits)
next
  case (after_login st L username password now uuid res st')
  then show ?case
    by (auto simp: login_def Let_def users_ok_update dest: findIndex_Some
        split: if_splits option.splits)
next
  case (after_logout st sessionId)
  then show ?case by (simp add: logout_def)
next
  case (after_activity st sessionId now)
  then show ?case by (simp add: updateSessionActivity_def split: option.splits)
next
  case (after_cleanup st now)
  then show ?case by (simp add: cleanupSessions_def)
qed

lemma users_ok_find:
  "users_ok us \<Longrightarrow> findUser us u = Some usr \<Longrightarrow> u_isActive usr \<and> u \<noteq> []"
  unfolding users_ok_def list_all_iff findUser_def
  by (auto simp: find_Some_iff)

section \<open>Tokens and sessions\<close>

lemma verifyTokenSync_Some_iff:
  "verifyTokenSync L us token now = Inr (Some d) \<longleftrightarrow>
     (\<exists>p u. d = Claims p \<and> jwt_verify L token SECRET (now div 1000) = Inr (Claims p)
        \<and> findUserById us (p_id p) = Some u \<and> u_isActive u)"
  by (auto simp: verifyTokenSync_def verifyTokenSync_try_def
      split: sum.splits option.splits decoded.splits)

text \<open>
  Claim C1, as the code has it. The claim says that a token is rejected once
  the session it names has been revoked. \<^verbatim>\<open>verifyTokenSync\<close> and
  \<^verbatim>\<open>requireAuth\<close> never read the session table: revoking a session leaves the
  result of verifying any token, and the response of the middleware to any
  request, exactly as they were. After the revocation as before it, a token is
  accepted exactly when \<^verbatim>\<open>jwt.verify\<close> accepts it (signature and expiry)
  and the user it names exists and is active.
\<close>

theorem revoked_session_same_outcome:
  "verifyTokenSync L (users (snd (logout st sessionId))) token now =
     verifyTokenSync L (users st) token now
   \<and> fst (requireAuth L (snd (logout st sessionId)) h now) = fst (requireAuth L st h now)
   \<and> (verifyTokenSync L (users (snd (logout st sessionId))) token now = Inr (Some d) \<longleftrightarrow>
        (\<exists>p u. d = Claims p \<and> jwt_verify L token SECRET (now div 1000) = Inr (Claims p)
           \<and> findUserById (users st) (p_id p) = Some u \<and> u_isActive u))"
proof -
  have u: "users (snd (logout st sessionId)) = users st"
    by (simp add: logout_def)
  have "fst (requireAuth L (snd (logout st sessionId)) h now) = fst (requireAuth L st h now)"
    by (auto simp: u requireAuth_def split: sum.splits option.splits)
  then show ?thesis
    by (simp add: u verifyTokenSync_Some_iff)
qed

text \<open>
  The claim as stated fails in the scenario: the token \<^verbatim>\<open>T1\<close> issued by
  alice's login names session \<^verbatim>\<open>s1\<close>; after \<^verbatim>\<open>logout\<close> has removed
  \<^verbatim>\<open>s1\<close>, and one second after the login, the middleware lets a request
  with \<^verbatim>\<open>T1\<close> through.
\<close>

theorem revoked_session_token_accepted:
  "login key_bcrypt demo_jwt st_signed_up ''alice'' ''pw1'' 2000 ''s1'' =
     Inr (\<lparr>r_token = ''T1'', r_user = userInfo (alice\<lparr>u_lastLogin := Some 2000\<rparr>),
           r_sessionId = ''s1''\<rparr>, st_logged_in)
   \<and> jwt_verify demo_jwt ''T1'' SECRET 3 = Inr (Claims alice_claims)
   \<and> p_sessionId alice_claims = ''s1''
   \<and> logout st_logged_in ''s1'' = (True, st_logged_out)
   \<and> getActiveSession st_logged_out ''s1'' = None
   \<and> requireAuth demo_jwt st_logged_out bearer_T1 3000 = (Next (Claims alice_claims), st_logged_out)"
proof -
  have "getActiveSession st_logged_out ''s1'' = None"
    by (simp add: getActiveSession_def st_logged_out_def)
  moreover have "jwt_verify demo_jwt ''T1'' SECRET 3 = Inr (Claims alice_claims)"
    by (simp add: demo_jwt_def table_jwt_def alice_claims_def)
  moreover have "p_sessionId alice_claims = ''s1''"
    by (simp add: alice_claims_def)
  ultimately show ?thesis
    using login_alice logout_alice requireAuth_after_logout by simp
qed

text \<open>
  Claim C10: \<^verbatim>\<open>verifyTokenSync\<close> returns a payload or \<^verbatim>\<open>null\<close> and never
  throws, whatever the token string, the user table and the clock are and
  whatever \<^verbatim>\<open>jwt.verify\<close> does with the token (it may throw anything or hand
  back anything); so \<^verbatim>\<open>requireAuth\<close> never answers with its status 500.
\<close>

theorem verifyTokenSync_never_throws:
  "(\<exists>r. verifyTokenSync L us token now = Inr r)
   \<and> fst (requireAuth L st h now) \<noteq> Status500 msg"
  by (auto simp: verifyTokenSync_def requireAuth_def split: sum.splits option.splits)

section \<open>Login\<close>

lemma login_Inr_iff:
  "login B L st u p now sid = Inr (r, st') \<longleftrightarrow>
     u \<noteq> [] \<and> p \<noteq> [] \<and>
     (\<exists>i. findIndex (\<lambda>x. u_username x = u) (users st) = Some i \<and>
        bcrypt_compare B p (u_password (users st ! i)) \<and>
        r = \<lparr>r_token = jwt_sign L \<lparr>p_id = u_id (users st ! i), p_username = u_username (users st ! i),
                 p_sessionId = sid, p_iat = now div 1000, p_exp = now div 1000 + 24 * 60 * 60\<rparr> SECRET,
               r_user = userInfo ((users st ! i)\<lparr>u_lastLogin := Some now\<rparr>), r_sessionId = sid\<rparr> \<and>
        st' = st\<lparr>users := (users st)[i := (users st ! i)\<lparr>u_lastLogin := Some now\<rparr>],
                 sessions := (sessions st)(sid \<mapsto>
                   \<lparr>s_id = sid, s_userId = u_id (users st ! i), s_username = u_username (users st ! i),
                    s_createdAt = now, s_lastActivity = now, s_isActive = True\<rparr>)\<rparr>)"
  by (auto simp: login_def Let_def split: option.splits)

text \<open>
  Claim C3, as the code has it. In every reachable state, and whatever the
  bcrypt library computes, \<^verbatim>\<open>login\<close> with username \<open>u\<close> and password \<open>p\<close>
  succeeds if and only if \<open>p\<close> is not empty, a user with username \<open>u\<close> exists,
  is active, and \<open>p\<close> hashes to the stored hash (\<^verbatim>\<open>bcrypt.compare\<close> says so);
  and after a successful login the user's \<^verbatim>\<open>lastLogin\<close> is the time of the
  login.
\<close>

theorem login_succeeds_iff:
  assumes "reachable B st"
  shows "((\<exists>r st'. login B L st u p now sid = Inr (r, st')) \<longleftrightarrow>
            p \<noteq> [] \<and>
            (\<exists>usr. findUser (users st) u = Some usr \<and> u_isActive usr \<and>
                   bcrypt_compare B p (u_password usr)))
       \<and> (\<forall>r st'. login B L st u p now sid = Inr (r, st') \<longrightarrow>
            (\<exists>usr. findUser (users st) u = Some usr \<and>
                   findUser (users st') u = Some (usr\<lparr>u_lastLogin := Some now\<rparr>)))"
proof -
  have ok: "users_ok (users st)"
    using assms by (rule reachable_users_ok)
  have fu: "findUser (users st) u =
      map_option (\<lambda>i. users st ! i) (findIndex (\<lambda>x. u_username x = u) (users st))"
    by (simp add: findUser_def find_findIndex)
  have "(\<exists>r st'. login B L st u p now sid = Inr (r, st'))"
    if "p \<noteq> []" "findUser (users st) u = Some usr" "bcrypt_compare B p (u_password usr)" for usr
  proof -
    from users_ok_find [OF ok that(2)] have "u \<noteq> []"
      by simp
    from that(2) fu obtain i where "findIndex (\<lambda>x. u_username x = u) (users st) = Some i"
      "users st ! i = usr"
      by auto
    with \<open>u \<noteq> []\<close> that(1,3) show ?thesis
      by (simp add: login_Inr_iff)
  qed
  moreover have "p \<noteq> [] \<and> (\<exists>usr. findUser (users st) u = Some usr \<and> u_isActive usr \<and>
                   bcrypt_compare B p (u_password usr) \<and>
                   findUser (users st') u = Some (usr\<lparr>u_lastLogin := Some now\<rparr>))"
    if "login B L st u p now sid = Inr (r, st')" for r st'
  proof -
    from that obtain i where i: "findIndex (\<lambda>x. u_username x = u) (users st) = Some i"
      and c: "bcrypt_compare B p (u_password (users st ! i))"
      and s: "users st' = (users st)[i := (users st ! i)\<lparr>u_lastLogin := Some now\<rparr>]"
      and p: "p \<noteq> []"
      by (auto simp: login_Inr_iff)
    from i fu have f: "findUser (users st) u = Some (users st ! i)" by simp
    from findIndex_Some [OF i] have "u_username (users st ! i) = u" by simp
    then have "findUser (users st') u = Some ((users st ! i)\<lparr>u_lastLogin := Some now\<rparr>)"
      unfolding s findUser_def by (intro find_update_first [OF i]) simp
    with f c p users_ok_find [OF ok f] show ?thesis by simp
  qed
  ultimately show ?thesis by blast
qed

theorem login_succeeds_iff_witness:
  "reachable key_bcrypt st_signed_up
   \<and> login key_bcrypt demo_jwt st_signed_up ''alice'' ''pw1'' 2000 ''s1'' =
       Inr (\<lparr>r_token = ''T1'', r_user = userInfo (alice\<lparr>u_lastLogin := Some 2000\<rparr>),
             r_sessionId = ''s1''\<rparr>, st_logged_in)
   \<and> findUser (users st_signed_up) ''alice'' = Some alice
   \<and> u_isActive alice
   \<and> bcrypt_compare key_bcrypt ''pw1'' (u_password alice)
   \<and> findUser (users st_logged_in) ''alice'' = Some (alice\<lparr>u_lastLogin := Some 2000\<rparr>)"
proof -
  have r: "reachable key_bcrypt st_signed_up"
    using reachable.after_signup [OF reachable.start signup_alice] .
  have f: "findUser (users st_signed_up) ''alice'' = Some alice"
    by (simp add: findUser_def st_signed_up_def alice_def)
  have a: "u_isActive alice \<and> bcrypt_compare key_bcrypt ''pw1'' (u_password alice)"
    by (simp add: alice_def key_bcrypt_def)
  from login_succeeds_iff [OF r, of demo_jwt "''alice''" "''pw1''" 2000 "''s1''"] login_alice f r a
  show ?thesis by auto
qed

text \<open>
  The claim as stated fails for the empty password. dave signed up with the
  password that is one NUL character; the empty password has the same bcrypt
  key, so it hashes to dave's stored hash. dave exists and is active, and yet
  \<^verbatim>\<open>login('dave', '')\<close> fails: the guard \<^verbatim>\<open>!password\<close> throws before the
  lookup.
\<close>

theorem login_rejects_matching_empty_password:
  "signup key_bcrypt init_state ''dave'' [CHR 0x00] 1500 ''u2'' ''salt2'' =
     Inr (userInfo dave, st_dave)
   \<and> findUser (users st_dave) ''dave'' = Some dave
   \<and> u_isActive dave
   \<and> bcrypt_compare key_bcrypt [] (u_password dave)
   \<and> login key_bcrypt demo_jwt st_dave ''dave'' [] 2000 ''s2'' =
       Inl (Error ''Username and password are required'')"
proof -
  have "findUser (users st_dave) ''dave'' = Some dave"
    by (simp add: findUser_def st_dave_def dave_def)
  moreover have "u_isActive dave"
    by (simp add: dave_def)
  moreover have "bcrypt_compare key_bcrypt [] (u_password dave)"
    by (simp add: dave_def key_bcrypt_def bcrypt_key_NUL)
  moreover have "login key_bcrypt demo_jwt st_dave ''dave'' [] 2000 ''s2'' =
      Inl (Error ''Username and password are required'')"
    by (simp add: login_def)
  ultimately show ?thesis
    using signup_dave by simp
qed

text \<open>
  Claim C4, as the code has it. Two failed logins that both carry a username
  and a password, one for a username that does not exist and one with a wrong
  password for a username that does, throw the same
  \<^verbatim>\<open>Error('Invalid username or password')\<close>. A login whose username or
  password is empty fails before the lookup, with another message, whether the
  user exists or not.
\<close>

theorem login_failures_same_error:
  "(u1 \<noteq> [] \<and> p1 \<noteq> [] \<and> u2 \<noteq> [] \<and> p2 \<noteq> []
      \<and> findUser (users st1) u1 = None
      \<and> findUser (users st2) u2 = Some usr \<and> \<not> bcrypt_compare B p2 (u_password usr) \<longrightarrow>
        login B L st1 u1 p1 now1 sid1 = Inl (Error ''Invalid username or password'')
      \<and> login B L st2 u2 p2 now2 sid2 = Inl (Error ''Invalid username or password''))
   \<and> (u = [] \<or> p = [] \<longrightarrow>
        login B L st u p now sid = Inl (Error ''Username and password are required''))"
proof (intro conjI impI)
  assume "u = [] \<or> p = []"
  then show "login B L st u p now sid = Inl (Error ''Username and password are required'')"
    by (auto simp: login_def)
next
  assume a: "u1 \<noteq> [] \<and> p1 \<noteq> [] \<and> u2 \<noteq> [] \<and> p2 \<noteq> []
      \<and> findUser (users st1) u1 = None
      \<and> findUser (users st2) u2 = Some usr \<and> \<not> bcrypt_compare B p2 (u_password usr)"
  then have "findIndex (\<lambda>x. u_username x = u1) (users st1) = None"
    by (simp add: findUser_def find_findIndex)
  with a show "login B L st1 u1 p1 now1 sid1 = Inl (Error ''Invalid username or password'')"
    by (simp add: login_def)
  from a obtain i where "findIndex (\<lambda>x. u_username x = u2) (users st2) = Some i"
    "users st2 ! i = usr"
    by (auto simp: findUser_def find_findIndex)
  with a show "login B L st2 u2 p2 now2 sid2 = Inl (Error ''Invalid username or password'')"
    by (simp add: login_def Let_def)
qed

theorem login_failures_same_error_witness:
  "findUser (users st_signed_up) ''bob'' = None
   \<and> findUser (users st_signed_up) ''alice'' = Some alice
   \<and> \<not> bcrypt_compare key_bcrypt ''wrong'' (u_password alice)
   \<and> login key_bcrypt demo_jwt st_signed_up ''bob'' ''pw1'' 2000 ''s1'' =
       Inl (Error ''Invalid username or password'')
   \<and> login key_bcrypt demo_jwt st_signed_up ''alice'' ''wrong'' 2000 ''s1'' =
       Inl (Error ''Invalid username or password'')
   \<and> login key_bcrypt demo_jwt st_signed_up ''bob'' [] 2000 ''s1'' =
       Inl (Error ''Username and password are required'')"
proof -
  have h: "findUser (users st_signed_up) ''bob'' = None
      \<and> findUser (users st_signed_up) ''alice'' = Some alice
      \<and> \<not> bcrypt_compare key_bcrypt ''wrong'' (u_password alice)"
    by (simp add: findUser_def st_signed_up_def alice_def key_bcrypt_def bcrypt_key_Cons)
  from login_failures_same_error [of "''bob''" "''pw1''" "''alice''" "''wrong''" st_signed_up
      st_signed_up alice key_bcrypt demo_jwt 2000 "''s1''" 2000 "''s1''" "''bob''" "[]"
      st_signed_up 2000 "''s1''"] h
  show ?thesis by simp
qed

text \<open>
  The claim as stated fails for an empty password: bob does not exist, alice
  does and her password is not the empty one, and the two errors differ.
\<close>

theorem login_empty_password_other_error:
  "findUser (users st_signed_up) ''bob'' = None
   \<and> findUser (users st_signed_up) ''alice'' = Some alice
   \<and> \<not> bcrypt_compare key_bcrypt [] (u_password alice)
   \<and> login key_bcrypt demo_jwt st_signed_up ''bob'' ''pw1'' 2000 ''s1'' =
       Inl (Error ''Invalid username or password'')
   \<and> login key_bcrypt demo_jwt st_signed_up ''alice'' [] 2000 ''s1'' =
       Inl (Error ''Username and password are required'')"
  by (simp add: login_def findUser_def st_signed_up_def alice_def key_bcrypt_def
      bcrypt_key_Cons bcrypt_key_Nil)

section \<open>Rate limiting\<close>



lemma rateLimit_other_client:
  "c' \<noteq> c \<Longrightarrow> snd (rateLimit k d m c' t) c = m c"
  by (simp add: rateLimit_def split: option.splits)




section \<open>Notes: lookups, deletion and listing\<close>

lemma find_visible:
  assumes "distinct (map n_id notes)" "N \<in> set notes" "n_owner N = uid" "\<not> n_isDeleted N"
  shows "\<exists>i<length notes. notes ! i = N \<and> findIndex (visible uid (n_id N)) notes = Some i"
proof -
  from assms(2) obtain i where i: "i < length notes" "notes ! i = N"
    by (auto simp: in_set_conv_nth)
  have "visible uid (n_id N) N"
    using assms(3,4) by (simp add: visible_def)
  with assms(2) have "findIndex (visible uid (n_id N)) notes \<noteq> None"
    by (auto simp: findIndex_None)
  then obtain k where k: "findIndex (visible uid (n_id N)) notes = Some k"
    by auto
  from findIndex_Some [OF k] have "k < length notes" "n_id (notes ! k) = n_id N"
    by (auto simp: visible_def)
  with i assms(1) have "k = i"
    by (metis length_map nth_eq_iff_index_eq nth_map)
  with i k show ?thesis by auto
qed

lemma hidden_findIndex: "hidden uid nid notes \<longleftrightarrow> findIndex (visible uid nid) notes = None"
  by (auto simp: hidden_def findIndex_None visible_def)

lemma hidden_after_delete:
  assumes "distinct (map n_id notes)" "i < length notes" 
  shows "hidden uid (n_id (notes ! i)) (notes[i := (notes ! i)\<lparr>n_isDeleted := True, n_deletedAt := t\<rparr>])"
  unfolding hidden_def
proof (intro ballI impI)
  fix n
  let ?ns = "notes[i := (notes ! i)\<lparr>n_isDeleted := True, n_deletedAt := t\<rparr>]"
  assume "n \<in> set ?ns" and id: "n_id n = n_id (notes ! i)"
  then obtain j where j: "j < length notes" "?ns ! j = n"
    by (auto simp: in_set_conv_nth)
  show "n_owner n \<noteq> uid \<or> n_isDeleted n"
  proof (cases "j = i")
    case True
    with j assms(2) show ?thesis by auto
  next
    case False
    with j have "notes ! j = n" by simp
    with id j assms False have False
      by (metis length_map nth_eq_iff_index_eq nth_map)
    then show ?thesis ..
  qed
qed

lemma filter_throwing_Inr:
  "filter_throwing P xs = Inr ys \<Longrightarrow> ys = filter (\<lambda>x. P x = Inr True) xs"
  by (induction xs arbitrary: ys) (auto split: sum.splits if_splits)

lemma filter_throwing_total:
  "\<forall>x\<in>set xs. \<exists>b. P x = Inr b \<Longrightarrow> filter_throwing P xs = Inr (filter (\<lambda>x. P x = Inr True) xs)"
  by (induction xs) (auto split: sum.splits)

lemma set_apply_filter: "set (apply_filter f now xs) \<subseteq> set xs"
  by (auto simp: apply_filter_def Let_def split: option.splits)

lemma listNotes_subset:
  assumes "listNotes notes uid opts t = Inr ns"
  shows "set ns \<subseteq> {n \<in> set notes. n_owner n = uid \<and> \<not> n_isDeleted n}"
proof -
  let ?base = "filter (\<lambda>n. n_owner n = uid \<and> \<not> n_isDeleted n) notes"
  let ?searched = "case search opts of
      None \<Rightarrow> Inr ?base
    | Some s \<Rightarrow> if s = [] then Inr ?base
               else filter_throwing (search_matches (toLowerCase s)) ?base"
  from assms have "listNotes_try notes uid opts t = Inr ns"
    by (auto simp: listNotes_def split: sum.splits)
  then obtain found where f: "?searched = Inr found"
    and ns: "ns = sort_key (\<lambda>n. - n_updatedAt n) (apply_filter (filter_opt opts) t found)"
    by (auto simp: listNotes_try_def Let_def split: sum.splits)
  from f have "set found \<subseteq> set ?base"
    by (auto split: option.splits if_splits dest!: filter_throwing_Inr)
  moreover from ns have "set ns \<subseteq> set found"
    using set_apply_filter by simp
  ultimately show ?thesis by auto
qed

text \<open>
  Claim C2, as the code has it. \<^verbatim>\<open>createNote\<close> checks neither emptiness nor
  length: for every request that carries a title and a content, whatever they
  are, it does not fail, appends exactly one note to the store and returns it,
  with the title and content of the request, the defaults for the fields the
  request lacks, no views, and not deleted.
\<close>

theorem createNote_no_validation:
  "in_title inp = Some title \<and> in_content inp = Some content \<longrightarrow>
     (\<exists>n. createNote notes uid inp nid now = Inr (n, notes @ [n])
        \<and> n_id n = nid \<and> n_owner n = uid \<and> n_title n = Some title \<and> n_content n = Some content
        \<and> n_views n = 0 \<and> \<not> n_isDeleted n \<and> n_createdAt n = now \<and> n_updatedAt n = now
        \<and> n_isPublic n = (case in_isPublic inp of None \<Rightarrow> False | Some b \<Rightarrow> b)
        \<and> n_tags n = (case in_tags inp of None \<Rightarrow> [] | Some ts \<Rightarrow> ts)
        \<and> n_category n = (case in_category inp of None \<Rightarrow> ''General'' | Some c \<Rightarrow> c))"
  by (simp add: createNote_def or_default_def Let_def)

text \<open>A title of 201 characters is stored as it is.\<close>

theorem createNote_no_validation_witness:
  "in_title long_title_input = Some (replicate 201 CHR ''x'')
   \<and> in_content long_title_input = Some ''B''
   \<and> length (replicate 201 CHR ''x'') = 201
   \<and> createNote [] ''u1'' long_title_input ''n4'' 5600 = Inr (long_title_note, [long_title_note])"
proof -
  have h: "in_title long_title_input = Some (replicate 201 CHR ''x'')
      \<and> in_content long_title_input = Some ''B''"
    by (simp add: long_title_input_def)
  have c: "createNote [] ''u1'' long_title_input ''n4'' 5600 = Inr (long_title_note, [long_title_note])"
    by (simp add: createNote_def or_default_def Let_def long_title_input_def long_title_note_def)
  from createNote_no_validation [of long_title_input "replicate 201 CHR ''x''" "''B''" "[]"
      "''u1''" "''n4''" 5600] h c
  show ?thesis by simp
qed

text \<open>
  The claim as stated fails for a request with an empty title: the note is
  created and is in the store.
\<close>

theorem createNote_empty_title_accepted:
  "in_title empty_title_input = Some []
   \<and> createNote [] ''u1'' empty_title_input ''n3'' 5500 = Inr (empty_title_note, [empty_title_note])"
  by (simp add: createNote_def or_default_def Let_def empty_title_input_def empty_title_note_def)

text \<open>
  Claim C6 does not hold of \<^verbatim>\<open>listNotes\<close>. A request without a title creates a
  note without one; from then on a search by its owner throws
  \<^verbatim>\<open>Error('Failed to fetch notes')\<close> instead of returning the notes that
  match, although the content of the note contains the search term.
\<close>

theorem listNotes_untitled_note_fails:
  "createNote [] ''u1'' untitled_input ''n2'' 6000 = Inr (untitled_note, [untitled_note])
   \<and> listNotes [untitled_note] ''u1'' \<lparr>search = Some ''a'', filter_opt = None\<rparr> 7000
       = Inl (Error ''Failed to fetch notes'')
   \<and> n_content untitled_note = Some ''abc'' \<and> js_includes (toLowerCase ''abc'') (toLowerCase ''a'')"
  by (simp add: createNote_def or_default_def Let_def untitled_input_def untitled_note_def
      listNotes_def listNotes_try_def search_matches_def toLowerCase_def lower_char_def js_includes_def)

text \<open>
  On a store where every note of the user has a title and a content,
  \<^verbatim>\<open>listNotes\<close> does return: exactly the notes of the user that are not
  deleted and pass the search and the filter, most recently updated first.
\<close>

lemma search_matches_complete:
  "n_title n \<noteq> None \<Longrightarrow> n_content n \<noteq> None \<Longrightarrow> s \<noteq> [] \<Longrightarrow>
     search_matches (toLowerCase s) n = Inr (search_ok (Some s) n)"
  by (auto simp: search_matches_def search_ok_def list_ex_iff)

lemma apply_filter_ok: "apply_filter f now xs = filter (filter_ok f now) xs"
  by (auto simp: apply_filter_def filter_ok_def Let_def split: option.splits intro!: filter_cong)

lemma listNotes_complete:
  assumes "complete uid notes"
  shows "listNotes notes uid opts now =
           Inr (sort_key (\<lambda>n. - n_updatedAt n)
                 (filter (\<lambda>n. n_owner n = uid \<and> \<not> n_isDeleted n \<and> search_ok (search opts) n
                            \<and> filter_ok (filter_opt opts) now n) notes))"
proof -
  let ?base = "filter (\<lambda>n. n_owner n = uid \<and> \<not> n_isDeleted n) notes"
  let ?searched = "case search opts of
      None \<Rightarrow> Inr ?base
    | Some s \<Rightarrow> if s = [] then Inr ?base
               else filter_throwing (search_matches (toLowerCase s)) ?base"
  have s: "?searched = Inr (filter (search_ok (search opts)) ?base)"
  proof (cases "search opts")
    case None
    then show ?thesis by (simp add: search_ok_def)
  next
    case (Some s)
    show ?thesis
    proof (cases "s = []")
      case True
      with Some show ?thesis by (simp add: search_ok_def)
    next
      case False
      have m: "search_matches (toLowerCase s) n = Inr (search_ok (Some s) n)" if "n \<in> set ?base" for n
        using that assms False by (intro search_matches_complete) (auto simp: complete_def)
      then have "filter_throwing (search_matches (toLowerCase s)) ?base =
          Inr (filter (\<lambda>n. search_matches (toLowerCase s) n = Inr True) ?base)"
        by (intro filter_throwing_total) blast
      also have "filter (\<lambda>n. search_matches (toLowerCase s) n = Inr True) ?base =
          filter (search_ok (Some s)) ?base"
        using m by (intro filter_cong) auto
      finally show ?thesis using Some False by simp
    qed
  qed
  have "listNotes_try notes uid opts now =
      Inr (sort_key (\<lambda>n. - n_updatedAt n)
            (apply_filter (filter_opt opts) now (filter (search_ok (search opts)) ?base)))"
    unfolding listNotes_try_def Let_def s by simp
  then show ?thesis
    by (simp add: listNotes_def apply_filter_ok)
qed

lemma listNotes_complete_sorted:
  assumes "complete uid notes" "listNotes notes uid opts now = Inr ns"
  shows "set ns = {n \<in> set notes. n_owner n = uid \<and> \<not> n_isDeleted n \<and> search_ok (search opts) n
                     \<and> filter_ok (filter_opt opts) now n}"
    and "sorted_wrt (\<lambda>a b. n_updatedAt a \<ge> n_updatedAt b) ns"
proof -
  let ?k = "\<lambda>n. - n_updatedAt n"
  from assms have ns: "ns = sort_key ?k
      (filter (\<lambda>n. n_owner n = uid \<and> \<not> n_isDeleted n \<and> search_ok (search opts) n
                 \<and> filter_ok (filter_opt opts) now n) notes)"
    by (simp add: listNotes_complete)
  then show "set ns = {n \<in> set notes. n_owner n = uid \<and> \<not> n_isDeleted n \<and> search_ok (search opts) n
                     \<and> filter_ok (filter_opt opts) now n}"
    by auto
  from ns have "sorted (map ?k ns)"
    by simp
  then show "sorted_wrt (\<lambda>a b. n_updatedAt a \<ge> n_updatedAt b) ns"
    by (simp add: sorted_wrt_map)
qed

text \<open>
  Claim C7: for a note \<open>N\<close> of a store with distinct identifiers that user
  \<open>uid\<close> owns and has not deleted, \<^verbatim>\<open>deleteNote\<close> returns true and sets the
  flag and the timestamp of \<open>N\<close>, leaving the rest of the store as it was;
  afterwards \<^verbatim>\<open>getNote\<close> returns nothing for \<open>N\<close>, no list that
  \<^verbatim>\<open>listNotes\<close> returns contains it, and a second \<^verbatim>\<open>deleteNote\<close> returns
  false. \<^verbatim>\<open>deleteNote\<close> also returns false, and changes nothing, for a note
  that is absent, foreign or deleted.
\<close>

theorem deleteNote_soft:
  "(distinct (map n_id notes) \<and> N \<in> set notes \<and> n_owner N = uid \<and> \<not> n_isDeleted N \<longrightarrow>
      (\<exists>i<length notes. notes ! i = N \<and>
         (let notes' = notes[i := N\<lparr>n_isDeleted := True, n_deletedAt := Some now\<rparr>] in
            deleteNote notes uid (n_id N) now = (True, notes') \<and>
            getNote notes' uid (n_id N) = (None, notes') \<and>
            (\<forall>opts t ns. listNotes notes' uid opts t = Inr ns \<longrightarrow> (\<forall>m\<in>set ns. n_id m \<noteq> n_id N)) \<and>
            deleteNote notes' uid (n_id N) later = (False, notes'))))
   \<and> (hidden uid' nid notes \<longrightarrow> deleteNote notes uid' nid now = (False, notes))"
proof (intro conjI impI)
  assume "hidden uid' nid notes"
  then show "deleteNote notes uid' nid now = (False, notes)"
    by (simp add: hidden_findIndex deleteNote_def)
next
  assume a: "distinct (map n_id notes) \<and> N \<in> set notes \<and> n_owner N = uid \<and> \<not> n_isDeleted N"
  then obtain i where i: "i < length notes" "notes ! i = N"
    and fi: "findIndex (visible uid (n_id N)) notes = Some i"
    using find_visible [of "notes" N uid] by auto
  let ?notes' = "notes[i := N\<lparr>n_isDeleted := True, n_deletedAt := Some now\<rparr>]"
  have d: "deleteNote notes uid (n_id N) now = (True, ?notes')"
    using fi i by (simp add: deleteNote_def)
  have h: "hidden uid (n_id N) ?notes'"
    using hidden_after_delete [of "notes" i uid "Some now"] a i by simp
  then have none: "findIndex (visible uid (n_id N)) ?notes' = None"
    by (simp add: hidden_findIndex)
  have l: "n_id m \<noteq> n_id N" if "listNotes ?notes' uid opts t = Inr ns" "m \<in> set ns" for opts t ns m
    using listNotes_subset [OF that(1)] that(2) h by (auto simp: hidden_def)
  have g: "getNote ?notes' uid (n_id N) = (None, ?notes')"
    using none by (simp add: getNote_def)
  have d2: "deleteNote ?notes' uid (n_id N) later = (False, ?notes')"
    using none by (simp add: deleteNote_def)
  have l': "\<forall>opts t ns. listNotes ?notes' uid opts t = Inr ns \<longrightarrow> (\<forall>m\<in>set ns. n_id m \<noteq> n_id N)"
    using l by blast
  show "\<exists>i<length notes. notes ! i = N \<and>
         (let notes' = notes[i := N\<lparr>n_isDeleted := True, n_deletedAt := Some now\<rparr>] in
            deleteNote notes uid (n_id N) now = (True, notes') \<and>
            getNote notes' uid (n_id N) = (None, notes') \<and>
            (\<forall>opts t ns. listNotes notes' uid opts t = Inr ns \<longrightarrow> (\<forall>m\<in>set ns. n_id m \<noteq> n_id N)) \<and>
            deleteNote notes' uid (n_id N) later = (False, notes'))"
    unfolding Let_def using i d g l' d2 by blast
qed

theorem deleteNote_soft_witness:
  "distinct (map n_id [note_A]) \<and> note_A \<in> set [note_A] \<and> n_owner note_A = ''u1''
   \<and> \<not> n_isDeleted note_A
   \<and> deleteNote [note_A] ''u1'' ''n1'' 8000 = (True, [deleted_A])
   \<and> getNote [deleted_A] ''u1'' ''n1'' = (None, [deleted_A])
   \<and> listNotes [deleted_A] ''u1'' \<lparr>search = None, filter_opt = None\<rparr> 9000 = Inr []
   \<and> deleteNote [deleted_A] ''u1'' ''n1'' 9000 = (False, [deleted_A])
   \<and> hidden ''u2'' ''n1'' [note_A]
   \<and> deleteNote [note_A] ''u2'' ''n1'' 8000 = (False, [note_A])"
proof -
  have h: "distinct (map n_id [note_A]) \<and> note_A \<in> set [note_A] \<and> n_owner note_A = ''u1''
      \<and> \<not> n_isDeleted note_A"
    by (simp add: note_A_def)
  have h2: "hidden ''u2'' ''n1'' [note_A]"
    by (simp add: hidden_def note_A_def)
  have l: "listNotes [deleted_A] ''u1'' \<lparr>search = None, filter_opt = None\<rparr> 9000 = Inr []"
    by (simp add: listNotes_def listNotes_try_def apply_filter_def deleted_A_def note_A_def)
  have n: "n_id note_A = ''n1''"
    by (simp add: note_A_def)
  from deleteNote_soft [of "[note_A]" note_A "''u1''" 8000 9000 "''u2''" "''n1''"] h h2 l
  show ?thesis
    by (simp add: n deleted_A_def Let_def)
qed

text \<open>
  Claim C8: for a note \<open>N\<close> of a store with distinct identifiers that user
  \<open>uid\<close> owns and has not deleted, \<^verbatim>\<open>updateNote\<close> writes the note back in
  its place with each of title, content, isPublic, tags and category taken
  from the request body where the body has it and left alone where not; the
  identifier, owner, view counter, deletion flag and timestamp and creation
  timestamp of the note stay; the last-update timestamp is the time of the
  call; and whatever else the body carries makes no difference.
\<close>

theorem updateNote_only_allowed_fields:
  "distinct (map n_id notes) \<and> N \<in> set notes \<and> n_owner N = uid \<and> \<not> n_isDeleted N \<longrightarrow>
     (\<exists>i<length notes. notes ! i = N \<and>
        (\<exists>N'. updateNote notes uid (n_id N) pt now = (Some N', notes[i := N'])
           \<and> n_id N' = n_id N \<and> n_owner N' = n_owner N \<and> n_views N' = n_views N
           \<and> n_isDeleted N' = n_isDeleted N \<and> n_createdAt N' = n_createdAt N
           \<and> n_deletedAt N' = n_deletedAt N
           \<and> n_title N' = (case pt_title pt of None \<Rightarrow> n_title N | Some v \<Rightarrow> Some v)
           \<and> n_content N' = (case pt_content pt of None \<Rightarrow> n_content N | Some v \<Rightarrow> Some v)
           \<and> n_isPublic N' = (case pt_isPublic pt of None \<Rightarrow> n_isPublic N | Some v \<Rightarrow> v)
           \<and> n_tags N' = (case pt_tags pt of None \<Rightarrow> n_tags N | Some v \<Rightarrow> v)
           \<and> n_category N' = (case pt_category pt of None \<Rightarrow> n_category N | Some v \<Rightarrow> v)
           \<and> n_updatedAt N' = now
           \<and> updateNote notes uid (n_id N)
                (pt\<lparr>pt_id := a, pt_owner := b, pt_views := c, pt_createdAt := d,
                    pt_updatedAt := e, pt_isDeleted := f, pt_deletedAt := g\<rparr>) now
              = updateNote notes uid (n_id N) pt now))"
proof
  assume a: "distinct (map n_id notes) \<and> N \<in> set notes \<and> n_owner N = uid \<and> \<not> n_isDeleted N"
  then obtain i where i: "i < length notes" "notes ! i = N"
    and fi: "findIndex (visible uid (n_id N)) notes = Some i"
    using find_visible [of "notes" N uid] by auto
  show "\<exists>i<length notes. notes ! i = N \<and>
        (\<exists>N'. updateNote notes uid (n_id N) pt now = (Some N', notes[i := N'])
           \<and> n_id N' = n_id N \<and> n_owner N' = n_owner N \<and> n_views N' = n_views N
           \<and> n_isDeleted N' = n_isDeleted N \<and> n_createdAt N' = n_createdAt N
           \<and> n_deletedAt N' = n_deletedAt N
           \<and> n_title N' = (case pt_title pt of None \<Rightarrow> n_title N | Some v \<Rightarrow> Some v)
           \<and> n_content N' = (case pt_content pt of None \<Rightarrow> n_content N | Some v \<Rightarrow> Some v)
           \<and> n_isPublic N' = (case pt_isPublic pt of None \<Rightarrow> n_isPublic N | Some v \<Rightarrow> v)
           \<and> n_tags N' = (case pt_tags pt of None \<Rightarrow> n_tags N | Some v \<Rightarrow> v)
           \<and> n_category N' = (case pt_category pt of None \<Rightarrow> n_category N | Some v \<Rightarrow> v)
           \<and> n_updatedAt N' = now
           \<and> updateNote notes uid (n_id N)
                (pt\<lparr>pt_id := a, pt_owner := b, pt_views := c, pt_createdAt := d,
                    pt_updatedAt := e, pt_isDeleted := f, pt_deletedAt := g\<rparr>) now
              = updateNote notes uid (n_id N) pt now)"
    using i fi
    by (intro exI [of _ i]) (simp add: updateNote_def Let_def split: option.splits)
qed

theorem updateNote_only_allowed_fields_witness:
  "distinct (map n_id [note_A]) \<and> note_A \<in> set [note_A] \<and> n_owner note_A = ''u1''
   \<and> \<not> n_isDeleted note_A
   \<and> updateNote [note_A] ''u1'' ''n1'' patch_title 8000 = (Some updated_A, [updated_A])
   \<and> n_id updated_A = ''n1'' \<and> n_owner updated_A = ''u1'' \<and> n_views updated_A = 0
   \<and> n_content updated_A = Some ''B''"
proof -
  have h: "distinct (map n_id [note_A]) \<and> note_A \<in> set [note_A] \<and> n_owner note_A = ''u1''
      \<and> \<not> n_isDeleted note_A"
    by (simp add: note_A_def)
  have u: "updateNote [note_A] ''u1'' ''n1'' patch_title 8000 = (Some updated_A, [updated_A])"
    by (simp add: updateNote_def visible_def Let_def patch_title_def updated_A_def note_A_def)
  from updateNote_only_allowed_fields [of "[note_A]" note_A "''u1''" patch_title 8000] h u
  show ?thesis
    by (simp add: updated_A_def note_A_def)
qed

text \<open>
  Claim C9: \<^verbatim>\<open>getNote\<close> returns nothing, and leaves the store alone, when the
  note is absent, owned by a different user or soft-deleted; otherwise it
  returns the note with its view counter one higher, stores that counter in
  the note, and changes no other note.
\<close>

theorem getNote_counts_view:
  "(hidden uid nid notes \<longrightarrow> getNote notes uid nid = (None, notes))
   \<and> (\<not> hidden uid nid notes \<longrightarrow>
        (\<exists>i<length notes. visible uid nid (notes ! i) \<and>
           getNote notes uid nid =
             (Some ((notes ! i)\<lparr>n_views := n_views (notes ! i) + 1\<rparr>),
              notes[i := (notes ! i)\<lparr>n_views := n_views (notes ! i) + 1\<rparr>])
           \<and> (\<forall>j<length notes. j \<noteq> i \<longrightarrow> snd (getNote notes uid nid) ! j = notes ! j)))"
proof (intro conjI impI)
  assume "hidden uid nid notes"
  then show "getNote notes uid nid = (None, notes)"
    by (simp add: hidden_findIndex getNote_def)
next
  assume "\<not> hidden uid nid notes"
  then obtain i where fi: "findIndex (visible uid nid) notes = Some i"
    by (auto simp: hidden_findIndex)
  from findIndex_Some [OF fi] have "i < length notes" "visible uid nid (notes ! i)"
    by auto
  with fi show "\<exists>i<length notes. visible uid nid (notes ! i) \<and>
           getNote notes uid nid =
             (Some ((notes ! i)\<lparr>n_views := n_views (notes ! i) + 1\<rparr>),
              notes[i := (notes ! i)\<lparr>n_views := n_views (notes ! i) + 1\<rparr>])
           \<and> (\<forall>j<length notes. j \<noteq> i \<longrightarrow> snd (getNote notes uid nid) ! j = notes ! j)"
    by (intro exI [of _ i]) (simp add: getNote_def Let_def)
qed

theorem getNote_counts_view_witness:
  "\<not> hidden ''u1'' ''n1'' [note_A]
   \<and> getNote [note_A] ''u1'' ''n1'' = (Some (note_A\<lparr>n_views := 1\<rparr>), [note_A\<lparr>n_views := 1\<rparr>])
   \<and> hidden ''u2'' ''n1'' [note_A]
   \<and> getNote [note_A] ''u2'' ''n1'' = (None, [note_A])"
proof -
  have h1: "\<not> hidden ''u1'' ''n1'' [note_A]"
    by (simp add: hidden_def note_A_def)
  have h2: "hidden ''u2'' ''n1'' [note_A]"
    by (simp add: hidden_def note_A_def)
  have v: "n_views note_A = 0"
    by (simp add: note_A_def)
  from getNote_counts_view [of "''u1''" "''n1''" "[note_A]"]
       getNote_counts_view [of "''u2''" "''n1''" "[note_A]"] h1 h2 v
  show ?thesis by auto
qed

end
